theory Spec2Isabelle
  imports Main "HOL-Library.Word" "HOL-Library.Sublist"
begin

section \<open>JavaScript strings\<close>

text \<open>
  A JavaScript string is a sequence of UTF-16 code units. The string methods and the
  regular expressions of \<^verbatim>\<open>extractSignaturesv2.ts\<close> (none of which carries the
  \<^verbatim>\<open>u\<close> flag) work on code units, so a string is a list of 16-bit words.
  \<open>js\<close> turns an ASCII literal of the theory into such a string.
\<close>

type_synonym code_unit = "16 word"
type_synonym jsstring = "code_unit list"

definition js :: "string \<Rightarrow> jsstring" where
  "js s = map of_char s"

text \<open>
  The characters matched by \<^verbatim>\<open>\s\<close> and removed by \<^verbatim>\<open>String.prototype.trim\<close>:
  ECMAScript's WhiteSpace and LineTerminator productions (TAB, LF, VT, FF, CR, SP, NBSP,
  the Unicode space separators, LS, PS and the byte order mark).
\<close>

definition isWhiteSpace :: "code_unit \<Rightarrow> bool" where
  "isWhiteSpace c =
     (c = 0x09 \<or> c = 0x0A \<or> c = 0x0B \<or> c = 0x0C \<or> c = 0x0D \<or> c = 0x20 \<or> c = 0xA0
      \<or> c = 0x1680 \<or> (0x2000 \<le> c \<and> c \<le> 0x200A) \<or> c = 0x2028 \<or> c = 0x2029
      \<or> c = 0x202F \<or> c = 0x205F \<or> c = 0x3000 \<or> c = 0xFEFF)"

text \<open>\<^verbatim>\<open>s.trim()\<close>\<close>

definition trim :: "jsstring \<Rightarrow> jsstring" where
  "trim s = rev (dropWhile isWhiteSpace (rev (dropWhile isWhiteSpace s)))"

text \<open>\<^verbatim>\<open>s.split('\n')\<close>: the pieces between line feeds; never an empty array.\<close>

fun splitLines :: "jsstring \<Rightarrow> jsstring list" where
  "splitLines [] = [[]]"
| "splitLines (c # cs) =
     (if c = 0x0A then [] # splitLines cs
      else (case splitLines cs of
              l # ls \<Rightarrow> (c # l) # ls
            | [] \<Rightarrow> [[c]]))"

text \<open>\<^verbatim>\<open>line.startsWith(annotation)\<close>\<close>

definition startsWith :: "jsstring \<Rightarrow> jsstring \<Rightarrow> bool" where
  "startsWith line annotation = prefix annotation line"

text \<open>
  \<^verbatim>\<open>s.substring(n)\<close> for a natural number \<open>n\<close>: the code units from index \<open>n\<close> on
  (the empty string when \<open>n\<close> is beyond the end), and \<^verbatim>\<open>s.substring(a, b)\<close>, which
  clamps both indices to the length and swaps them when they are out of order.
\<close>

definition substringFrom :: "jsstring \<Rightarrow> nat \<Rightarrow> jsstring" where
  "substringFrom s n = drop n s"

definition substring :: "jsstring \<Rightarrow> nat \<Rightarrow> nat \<Rightarrow> jsstring" where
  "substring s a b =
     (let a' = min a (length s); b' = min b (length s)
      in take (max a' b' - min a' b') (drop (min a' b') s))"

text \<open>
  \<^verbatim>\<open>.replace(/^[/*\s]+/, '')\<close>: the longest leading run of slashes, asterisks and white
  space is removed (nothing changes when the run is empty).
\<close>

definition isCommentLead :: "code_unit \<Rightarrow> bool" where
  "isCommentLead c = (c = 0x2F \<or> c = 0x2A \<or> isWhiteSpace c)"

definition stripCommentStart :: "jsstring \<Rightarrow> jsstring" where
  "stripCommentStart s = dropWhile isCommentLead s"

text \<open>
  \<^verbatim>\<open>.replace(/\s*\*\/$/, '')\<close>: the pattern matches only when the string ends with
  \<^verbatim>\<open>*/\<close>; the leftmost match then starts at the beginning of the white space that
  precedes that closer, and the whole match is removed.
\<close>

definition stripCommentEnd :: "jsstring \<Rightarrow> jsstring" where
  "stripCommentEnd s =
     (case rev s of
        c1 # c2 # r \<Rightarrow>
          (if c1 = 0x2F \<and> c2 = 0x2A then rev (dropWhile isWhiteSpace r) else s)
      | _ \<Rightarrow> s)"

section \<open>Types and interfaces\<close>

record AnnotationConfig =
  supportedAnnotations :: "jsstring list"
  multiLineSupport :: bool
  encoding :: "jsstring option"

record AnnotationMetadata =
  type :: jsstring
  content :: jsstring
  isMultiLine :: bool

record Location =
  line :: nat
  column :: nat

record FunctionMetadata =
  name :: jsstring
  annotations :: "AnnotationMetadata list"
  location :: Location

text \<open>
  \<^verbatim>\<open>Partial<AnnotationConfig>\<close> and \<^verbatim>\<open>Partial<AnnotationMetadata>\<close>: every
  property may be absent (\<open>None\<close> is \<^verbatim>\<open>undefined\<close>).
\<close>

record PartialAnnotationConfig =
  supportedAnnotations_opt :: "jsstring list option"
  multiLineSupport_opt :: "bool option"
  encoding_opt :: "jsstring option"

record PartialAnnotationMetadata =
  type_opt :: "jsstring option"
  content_opt :: "jsstring option"
  isMultiLine_opt :: "bool option"

text \<open>
  What can go wrong at run time in the annotation parser. \<open>TypeError\<close> is what
  \<^verbatim>\<open>annotation.content!.trim()\<close> throws when \<open>content\<close> is \<^verbatim>\<open>undefined\<close>.
  \<^verbatim>\<open>annotation.type!\<close> does not throw on \<^verbatim>\<open>undefined\<close>, but the object built from
  it is no \<open>AnnotationMetadata\<close>; the model reports that as \<open>UndefinedType\<close>.
\<close>

datatype js_error = TypeError | UndefinedType

section \<open>AnnotationParser\<close>

text \<open>The constructor: \<^verbatim>\<open>|| []\<close> and \<^verbatim>\<open>?? true\<close> fill in absent properties.\<close>

definition AnnotationParser :: "PartialAnnotationConfig \<Rightarrow> AnnotationConfig" where
  "AnnotationParser config =
     \<lparr> supportedAnnotations =
         (case supportedAnnotations_opt config of Some tags \<Rightarrow> tags | None \<Rightarrow> []),
       multiLineSupport =
         (case multiLineSupport_opt config of Some b \<Rightarrow> b | None \<Rightarrow> True),
       encoding = encoding_opt config \<rparr>"

text \<open>
  \<^verbatim>\<open>supportedAnnotations.find(a => line.startsWith(a)) || null\<close>: the first configured
  annotation that the line starts with; \<^verbatim>\<open>|| null\<close> turns both \<^verbatim>\<open>undefined\<close> and the
  empty string into \<^verbatim>\<open>null\<close>.
\<close>

definition findAnnotationType :: "AnnotationConfig \<Rightarrow> jsstring \<Rightarrow> jsstring option" where
  "findAnnotationType config ln =
     (case List.find (\<lambda>annotation. startsWith ln annotation) (supportedAnnotations config) of
        None \<Rightarrow> None
      | Some annotation \<Rightarrow> (if annotation = [] then None else Some annotation))"

definition finalizeAnnotation :: "PartialAnnotationMetadata \<Rightarrow> js_error + AnnotationMetadata" where
  "finalizeAnnotation annotation =
     (case content_opt annotation of
        None \<Rightarrow> Inl TypeError
      | Some c \<Rightarrow>
          (case type_opt annotation of
             None \<Rightarrow> Inl UndefinedType
           | Some t \<Rightarrow>
               Inr \<lparr> type = t, content = trim c,
                     isMultiLine = (case isMultiLine_opt annotation of Some b \<Rightarrow> b | None \<Rightarrow> False) \<rparr>))"

text \<open>
  The cleaned line of the loop body:
  \<^verbatim>\<open>line.trim().replace(/^[/*\s]+/, '').replace(/\s*\*\/$/, '')\<close>.
\<close>

definition trimmedLine :: "jsstring \<Rightarrow> jsstring" where
  "trimmedLine ln = stripCommentEnd (stripCommentStart (trim ln))"

text \<open>Truthiness of an optional string: present and not empty.\<close>

definition truthy :: "jsstring option \<Rightarrow> bool" where
  "truthy v = (case v of None \<Rightarrow> False | Some s \<Rightarrow> s \<noteq> [])"

text \<open>
  \<^verbatim>\<open>if (currentAnnotation?.type && currentAnnotation.content)
      annotations.push(this.finalizeAnnotation(currentAnnotation));\<close>
  (the statement occurs twice in \<open>parse\<close>).
\<close>

definition pushCurrent ::
  "AnnotationMetadata list \<Rightarrow> PartialAnnotationMetadata option \<Rightarrow> js_error + AnnotationMetadata list"
where
  "pushCurrent annots currentAnnotation =
     (case currentAnnotation of
        None \<Rightarrow> Inr annots
      | Some cur \<Rightarrow>
          (if truthy (type_opt cur) \<and> truthy (content_opt cur)
           then (case finalizeAnnotation cur of
                   Inl e \<Rightarrow> Inl e
                 | Inr a \<Rightarrow> Inr (annots @ [a]))
           else Inr annots))"

text \<open>\<^verbatim>\<open>undefined + '\n'\<close> concatenates the text \<^verbatim>\<open>undefined\<close>.\<close>

definition toStr :: "jsstring option \<Rightarrow> jsstring" where
  "toStr v = (case v of None \<Rightarrow> js ''undefined'' | Some s \<Rightarrow> s)"

type_synonym parse_state = "AnnotationMetadata list \<times> PartialAnnotationMetadata option"

text \<open>One iteration of \<^verbatim>\<open>for (const line of lines)\<close> on the state
  (\<open>annotations\<close>, \<open>currentAnnotation\<close>).\<close>

definition parseLine :: "AnnotationConfig \<Rightarrow> jsstring \<Rightarrow> parse_state \<Rightarrow> js_error + parse_state" where
  "parseLine config ln st =
     (let tl = trimmedLine ln; annots = fst st; currentAnnotation = snd st
      in case findAnnotationType config tl of
           Some annotationType \<Rightarrow>
             (case pushCurrent annots currentAnnotation of
                Inl e \<Rightarrow> Inl e
              | Inr annots' \<Rightarrow>
                  Inr (annots',
                       Some \<lparr> type_opt = Some annotationType,
                              content_opt = Some (trim (substringFrom tl (length annotationType))),
                              isMultiLine_opt = Some False \<rparr>))
         | None \<Rightarrow>
             (case currentAnnotation of
                Some cur \<Rightarrow>
                  (if multiLineSupport config
                   then Inr (annots,
                             Some (cur\<lparr> content_opt := Some (toStr (content_opt cur) @ js ''\<newline>'' @ tl),
                                        isMultiLine_opt := Some True \<rparr>))
                   else Inr st)
              | None \<Rightarrow> Inr st))"

fun parseLines :: "AnnotationConfig \<Rightarrow> jsstring list \<Rightarrow> parse_state \<Rightarrow> js_error + parse_state" where
  "parseLines config [] st = Inr st"
| "parseLines config (ln # lns) st =
     (case parseLine config ln st of
        Inl e \<Rightarrow> Inl e
      | Inr st' \<Rightarrow> parseLines config lns st')"

definition parse :: "AnnotationConfig \<Rightarrow> jsstring \<Rightarrow> js_error + AnnotationMetadata list" where
  "parse config comments =
     (case parseLines config (splitLines comments) ([], None) of
        Inl e \<Rightarrow> Inl e
      | Inr st \<Rightarrow> pushCurrent (fst st) (snd st))"

section \<open>The TypeScript compiler API\<close>

text \<open>
  The parse tree comes from the \<^verbatim>\<open>typescript\<close> library, which is not part of the
  repository. A node is the data the extractor reads from it: its kind, the two start
  positions (\<^verbatim>\<open>getFullStart()\<close> includes the leading trivia, \<^verbatim>\<open>getStart()\<close> is the
  first token), the name identifier if there is one, and the children in the order in
  which \<^verbatim>\<open>ts.forEachChild\<close> visits them.
\<close>

datatype SyntaxKind = FunctionDeclaration | OtherKind

record Identifier =
  idStart :: nat
  getText :: jsstring

datatype Node =
  Node (kind: SyntaxKind) (getFullStart: nat) (getStart: nat)
       (nodeName: "Identifier option") (children: "Node list")

record SourceFile =
  getFullText :: jsstring
  rootNode :: Node

record CommentRange =
  pos :: nat
  endPos :: nat

text \<open>
  \<^verbatim>\<open>ts.getLeadingCommentRanges(text, pos)\<close> is the library's trivia scanner; the
  extractor takes it as given, and so does the model: a parameter \<open>lcr\<close> of this type,
  \<open>None\<close> being \<^verbatim>\<open>undefined\<close> (no comment before the token).
\<close>

type_synonym LeadingCommentRanges = "jsstring \<Rightarrow> nat \<Rightarrow> CommentRange list option"

text \<open>
  \<^verbatim>\<open>sourceFile.getLineAndCharacterOfPosition(position)\<close>, after the library's
  \<^verbatim>\<open>computeLineStarts\<close> and \<^verbatim>\<open>computeLineOfPosition\<close>: a line ends at LF, CR, CR LF,
  LS or PS; the line of a position is the last line that starts at or before it, and the
  character is the offset from that line's start. Both are 0-based.
\<close>

definition isLineBreak :: "code_unit \<Rightarrow> bool" where
  "isLineBreak c = (c = 0x0A \<or> c = 0x0D \<or> c = 0x2028 \<or> c = 0x2029)"

fun computeLineStartsFrom :: "nat \<Rightarrow> nat \<Rightarrow> jsstring \<Rightarrow> nat list" where
  "computeLineStartsFrom p lineStart [] = [lineStart]"
| "computeLineStartsFrom p lineStart (c # cs) =
     (if c = 0x0D
      then (case cs of
              c' # cs' \<Rightarrow>
                (if c' = 0x0A then lineStart # computeLineStartsFrom (p + 2) (p + 2) cs'
                 else lineStart # computeLineStartsFrom (p + 1) (p + 1) cs)
            | [] \<Rightarrow> lineStart # computeLineStartsFrom (p + 1) (p + 1) cs)
      else if isLineBreak c then lineStart # computeLineStartsFrom (p + 1) (p + 1) cs
      else computeLineStartsFrom (p + 1) lineStart cs)"

definition computeLineStarts :: "jsstring \<Rightarrow> nat list" where
  "computeLineStarts text = computeLineStartsFrom 0 0 text"

definition computeLineOfPosition :: "nat list \<Rightarrow> nat \<Rightarrow> nat" where
  "computeLineOfPosition lineStarts position =
     length (takeWhile (\<lambda>s. s \<le> position) lineStarts) - 1"

definition getLineAndCharacterOfPosition :: "SourceFile \<Rightarrow> nat \<Rightarrow> nat \<times> nat" where
  "getLineAndCharacterOfPosition sourceFile position =
     (let lineStarts = computeLineStarts (getFullText sourceFile);
          lineNumber = computeLineOfPosition lineStarts position
      in (lineNumber, position - lineStarts ! lineNumber))"

section \<open>TypeScriptParser\<close>

definition defaultConfig :: PartialAnnotationConfig where
  "defaultConfig =
     \<lparr> supportedAnnotations_opt = Some [js ''@param'', js ''@returns'', js ''@throws''],
       multiLineSupport_opt = Some True,
       encoding_opt = Some (js ''utf-8'') \<rparr>"

text \<open>
  The constructor: \<^verbatim>\<open>{ ...this.defaultConfig, ...config }\<close>. The spread copies every
  property that the argument has, also one whose value is \<^verbatim>\<open>undefined\<close>; only a property
  that the argument lacks keeps the default. So a property of the argument is absent, or
  present with a value that may be \<^verbatim>\<open>undefined\<close>.
\<close>

datatype 'a property = Absent | Present "'a option"

record ConfigArgument =
  supportedAnnotations_arg :: "jsstring list property"
  multiLineSupport_arg :: "bool property"
  encoding_arg :: "jsstring property"

definition TypeScriptParser :: "ConfigArgument \<Rightarrow> PartialAnnotationConfig" where
  "TypeScriptParser config =
     \<lparr> supportedAnnotations_opt =
         (case supportedAnnotations_arg config of
            Absent \<Rightarrow> supportedAnnotations_opt defaultConfig | Present v \<Rightarrow> v),
       multiLineSupport_opt =
         (case multiLineSupport_arg config of
            Absent \<Rightarrow> multiLineSupport_opt defaultConfig | Present v \<Rightarrow> v),
       encoding_opt =
         (case encoding_arg config of
            Absent \<Rightarrow> encoding_opt defaultConfig | Present v \<Rightarrow> v) \<rparr>"

text \<open>\<^verbatim>\<open>strings.join('\n')\<close>\<close>

fun joinLines :: "jsstring list \<Rightarrow> jsstring" where
  "joinLines [] = []"
| "joinLines [s] = s"
| "joinLines (s # t # ss) = s @ js ''\<newline>'' @ joinLines (t # ss)"

definition getLeadingComments :: "LeadingCommentRanges \<Rightarrow> jsstring \<Rightarrow> nat \<Rightarrow> jsstring" where
  "getLeadingComments lcr text p =
     (case lcr text p of
        None \<Rightarrow> []
      | Some comments \<Rightarrow>
          joinLines (map (\<lambda>comment. substring text (pos comment) (endPos comment)) comments))"

definition parseAnnotations ::
  "PartialAnnotationConfig \<Rightarrow> jsstring \<Rightarrow> js_error + AnnotationMetadata list"
where
  "parseAnnotations config comments =
     (if comments = [] then Inr [] else parse (AnnotationParser config) comments)"

definition processFunctionDeclaration ::
  "LeadingCommentRanges \<Rightarrow> PartialAnnotationConfig \<Rightarrow> SourceFile \<Rightarrow> Node
     \<Rightarrow> js_error + FunctionMetadata option"
where
  "processFunctionDeclaration lcr config sourceFile node =
     (case nodeName node of
        None \<Rightarrow> Inr None
      | Some nm \<Rightarrow>
          (let lc = getLineAndCharacterOfPosition sourceFile (getStart node);
               comments = getLeadingComments lcr (getFullText sourceFile) (getFullStart node)
           in case parseAnnotations config comments of
                Inl e \<Rightarrow> Inl e
              | Inr annots \<Rightarrow>
                  Inr (Some \<lparr> name = getText nm, annotations = annots,
                              location = \<lparr> line = fst lc + 1, column = snd lc + 1 \<rparr> \<rparr>)))"

text \<open>\<^verbatim>\<open>ts.isFunctionDeclaration(node) && node.name\<close>\<close>

definition isNamedFunctionDeclaration :: "Node \<Rightarrow> bool" where
  "isNamedFunctionDeclaration node = (kind node = FunctionDeclaration \<and> nodeName node \<noteq> None)"

text \<open>
  The recursive closure \<open>visit\<close> of \<open>extractFunctions\<close>, with the array \<open>functions\<close> it
  pushes to passed along. The callback never returns a value, so \<^verbatim>\<open>ts.forEachChild\<close>
  calls it on every child, in order.
\<close>

fun visit ::
  "LeadingCommentRanges \<Rightarrow> PartialAnnotationConfig \<Rightarrow> SourceFile \<Rightarrow> Node
     \<Rightarrow> FunctionMetadata list \<Rightarrow> js_error + FunctionMetadata list"
and forEachChild ::
  "LeadingCommentRanges \<Rightarrow> PartialAnnotationConfig \<Rightarrow> SourceFile \<Rightarrow> Node list
     \<Rightarrow> FunctionMetadata list \<Rightarrow> js_error + FunctionMetadata list"
where
  "visit lcr config sourceFile (Node k fs s nm cs) functions =
     (case (if isNamedFunctionDeclaration (Node k fs s nm cs)
            then (case processFunctionDeclaration lcr config sourceFile (Node k fs s nm cs) of
                    Inl e \<Rightarrow> Inl e
                  | Inr None \<Rightarrow> Inr functions
                  | Inr (Some functionData) \<Rightarrow> Inr (functions @ [functionData]))
            else Inr functions) of
        Inl e \<Rightarrow> Inl e
      | Inr functions' \<Rightarrow> forEachChild lcr config sourceFile cs functions')"
| "forEachChild lcr config sourceFile [] functions = Inr functions"
| "forEachChild lcr config sourceFile (c # cs) functions =
     (case visit lcr config sourceFile c functions of
        Inl e \<Rightarrow> Inl e
      | Inr functions' \<Rightarrow> forEachChild lcr config sourceFile cs functions')"

definition extractFunctions ::
  "LeadingCommentRanges \<Rightarrow> PartialAnnotationConfig \<Rightarrow> SourceFile
     \<Rightarrow> js_error + FunctionMetadata list"
where
  "extractFunctions lcr config sourceFile = visit lcr config sourceFile (rootNode sourceFile) []"

section \<open>Auxiliary definitions\<close>

text \<open>
  The invariant of the loop of \<open>parse\<close>: an open annotation carries a non-empty type and
  a content.
\<close>

definition complete :: "PartialAnnotationMetadata option \<Rightarrow> bool" where
  "complete cur = (case cur of None \<Rightarrow> True | Some a \<Rightarrow> truthy (type_opt a) \<and> content_opt a \<noteq> None)"

text \<open>The configuration used throughout the repository's tests.\<close>

definition testConfig :: AnnotationConfig where
  "testConfig =
     \<lparr> supportedAnnotations = [js ''@param'', js ''@returns'', js ''@throws'', js ''@description''],
       multiLineSupport = True, encoding = None \<rparr>"

text \<open>
  The invariant of the loop without \<open>multiLineSupport\<close>: what has been emitted, and
  what is open, each come from one tag line of the comment.
\<close>

definition tagLineOf :: "AnnotationConfig \<Rightarrow> jsstring list \<Rightarrow> AnnotationMetadata \<Rightarrow> bool" where
  "tagLineOf config lns a =
     (\<not> isMultiLine a \<and> content a \<noteq> [] \<and>
      (\<exists>ln \<in> set lns. findAnnotationType config (trimmedLine ln) = Some (type a) \<and>
          content a = trim (substringFrom (trimmedLine ln) (length (type a)))))"

definition openTagLine :: "AnnotationConfig \<Rightarrow> jsstring list \<Rightarrow> PartialAnnotationMetadata option \<Rightarrow> bool" where
  "openTagLine config lns cur =
     (case cur of
        None \<Rightarrow> True
      | Some c \<Rightarrow>
          (\<exists>ln \<in> set lns. \<exists>t. findAnnotationType config (trimmedLine ln) = Some t \<and>
             c = \<lparr> type_opt = Some t,
                   content_opt = Some (trim (substringFrom (trimmedLine ln) (length t))),
                   isMultiLine_opt = Some False \<rparr>))"

text \<open>Configurations of the scenarios.\<close>

definition paramReturnsConfig :: AnnotationConfig where
  "paramReturnsConfig =
     \<lparr> supportedAnnotations = [js ''@param'', js ''@returns''],
       multiLineSupport = True, encoding = None \<rparr>"

definition singleLineConfig :: AnnotationConfig where
  "singleLineConfig =
     \<lparr> supportedAnnotations = [js ''@param'', js ''@returns''],
       multiLineSupport = False, encoding = None \<rparr>"

definition descConfig :: AnnotationConfig where
  "descConfig =
     \<lparr> supportedAnnotations = [js ''@desc'', js ''@description''],
       multiLineSupport = True, encoding = None \<rparr>"

definition lineConfig :: AnnotationConfig where
  "lineConfig =
     \<lparr> supportedAnnotations = [js ''@description'', js ''line''],
       multiLineSupport = True, encoding = None \<rparr>"

definition overlappingConfig :: AnnotationConfig where
  "overlappingConfig =
     \<lparr> supportedAnnotations = [js ''@param'', js ''@paramType''],
       multiLineSupport = True, encoding = None \<rparr>"

text \<open>
  The rule that claim C4 states, in its words: among the configured tags that are a prefix
  of the line, the longest one, the earlier one of two of the same length.
\<close>

fun longestMatchingTag :: "jsstring list \<Rightarrow> jsstring \<Rightarrow> jsstring option" where
  "longestMatchingTag [] ln = None"
| "longestMatchingTag (t # ts) ln =
     (case longestMatchingTag ts ln of
        None \<Rightarrow> (if prefix t ln then Some t else None)
      | Some u \<Rightarrow> (if prefix t ln \<and> length u \<le> length t then Some t else Some u))"

text \<open>
  Document order, in the words of the specification: a depth-first traversal that lists
  each parent before its children, and siblings from left to right.
\<close>

fun preorder :: "Node \<Rightarrow> Node list" where
  "preorder (Node k fs s nm cs) = Node k fs s nm cs # concat (map preorder cs)"

text \<open>What \<open>visit\<close> pushes for one node that qualifies.\<close>

definition functionDataOf ::
  "LeadingCommentRanges \<Rightarrow> PartialAnnotationConfig \<Rightarrow> SourceFile \<Rightarrow> Node \<Rightarrow> FunctionMetadata list"
where
  "functionDataOf lcr config sourceFile node =
     (case processFunctionDeclaration lcr config sourceFile node of
        Inr (Some functionData) \<Rightarrow> [functionData]
      | _ \<Rightarrow> [])"

text \<open>
  The location that claim C2 states: the 1-based line and column of the start of the
  name token.
\<close>

definition nameTokenLocation :: "SourceFile \<Rightarrow> Node \<Rightarrow> Location option" where
  "nameTokenLocation sourceFile node =
     (case nodeName node of
        None \<Rightarrow> None
      | Some nm \<Rightarrow>
          (let lc = getLineAndCharacterOfPosition sourceFile (idStart nm)
           in Some \<lparr> line = fst lc + 1, column = snd lc + 1 \<rparr>))"

text \<open>
  An example file, as the compiler parses it: two declarations, the second one indented
  on the second line, no comment anywhere (so the trivia scanner finds none).
\<close>

definition noComments :: LeadingCommentRanges where
  "noComments text p = None"

definition declF :: Node where
  "declF = Node FunctionDeclaration 0 0 (Some \<lparr> idStart = 9, getText = js ''f'' \<rparr>)
             [Node OtherKind 8 9 None [], Node OtherKind 12 13 None []]"

definition declG :: Node where
  "declG = Node FunctionDeclaration 15 18 (Some \<lparr> idStart = 27, getText = js ''g'' \<rparr>)
             [Node OtherKind 26 27 None [], Node OtherKind 30 31 None []]"

definition exampleFile :: SourceFile where
  "exampleFile =
     \<lparr> getFullText = js ''function f() {}\<newline>  function g() {}'',
       rootNode = Node OtherKind 0 0 None [declF, declG] \<rparr>"


section \<open>The annotation parser never fails\<close>

lemma findAnnotationType_Some:
  assumes "findAnnotationType config ln = Some t"
  shows "t \<noteq> [] \<and> t \<in> set (supportedAnnotations config) \<and> startsWith ln t"
proof (cases "List.find (\<lambda>annotation. startsWith ln annotation) (supportedAnnotations config)")
  case None
  with assms show ?thesis by (simp add: findAnnotationType_def)
next
  case (Some a)
  with assms have "a = t" "t \<noteq> []"
    by (auto simp: findAnnotationType_def split: if_splits)
  moreover from Some have "a \<in> set (supportedAnnotations config) \<and> startsWith ln a"
    by (auto simp: find_Some_iff)
  ultimately show ?thesis by simp
qed


lemma pushCurrent_complete:
  "complete cur \<Longrightarrow> \<exists>annots'. pushCurrent annots cur = Inr annots'"
  by (auto simp: complete_def pushCurrent_def finalizeAnnotation_def truthy_def split: option.splits)

lemma parseLine_complete:
  assumes "complete (snd st)"
  shows "\<exists>st'. parseLine config ln st = Inr st' \<and> complete (snd st')"
proof (cases "findAnnotationType config (trimmedLine ln)")
  case None
  obtain annots cur where st: "st = (annots, cur)" by (cases st)
  with None assms show ?thesis
    by (cases cur) (simp_all add: parseLine_def Let_def complete_def)
next
  case (Some t)
  from pushCurrent_complete [OF assms] obtain annots' where
    "pushCurrent (fst st) (snd st) = Inr annots'" by blast
  with Some findAnnotationType_Some [OF Some] show ?thesis
    by (simp add: parseLine_def Let_def complete_def truthy_def)
qed

lemma parseLines_complete:
  "complete (snd st) \<Longrightarrow> \<exists>st'. parseLines config lns st = Inr st' \<and> complete (snd st')"
proof (induction lns arbitrary: st)
  case Nil
  then show ?case by simp
next
  case (Cons ln lns)
  from parseLine_complete [OF Cons.prems] obtain st1 where
    s: "parseLine config ln st = Inr st1" and c: "complete (snd st1)" by blast
  from Cons.IH [OF c] s show ?case by simp
qed

lemma parse_returns: "\<exists>annots. parse config comments = Inr annots"
proof -
  have "complete (snd ([], None))" by (simp add: complete_def)
  from parseLines_complete [OF this] obtain st' where
    s: "parseLines config (splitLines comments) ([], None) = Inr st'" and c: "complete (snd st')"
    by blast
  from pushCurrent_complete [OF c] obtain annots where "pushCurrent (fst st') (snd st') = Inr annots"
    by blast
  with s show ?thesis by (simp add: parse_def)
qed

lemma trimmedLine_Nil: "trimmedLine [] = []"
  by (simp add: trimmedLine_def trim_def stripCommentStart_def stripCommentEnd_def)

lemma findAnnotationType_Nil: "findAnnotationType config [] = None"
proof (cases "List.find (\<lambda>annotation. startsWith [] annotation) (supportedAnnotations config)")
  case None
  then show ?thesis by (simp add: findAnnotationType_def)
next
  case (Some a)
  then have "startsWith [] a" by (auto simp: find_Some_iff)
  then have "a = []" by (simp add: startsWith_def)
  with Some show ?thesis by (simp add: findAnnotationType_def)
qed

text \<open>
  Claim C3. \<open>AnnotationParser.parse\<close> is total: on every configuration and every string
  it returns a sequence of annotations (the result is never one of the run-time errors),
  and on the empty string the sequence is empty.
\<close>

theorem parse_total:
  "(\<exists>annots. parse config comments = Inr annots) \<and> parse config [] = Inr []"
proof
  show "\<exists>annots. parse config comments = Inr annots" by (rule parse_returns)
  show "parse config [] = Inr []"
    by (simp add: parse_def parseLine_def trimmedLine_Nil findAnnotationType_Nil pushCurrent_def)
qed

section \<open>Strings and lines\<close>

lemma js_newline: "js ''\<newline>'' = [0x0A]"
  by (simp add: js_def)

lemma js_closer: "js ''*/'' = [0x2A, 0x2F]"
  by (simp add: js_def)

lemma dropWhile_rev_stable:
  assumes "xs = [] \<or> \<not> P (hd xs)"
  shows "dropWhile P (rev (dropWhile P (rev xs))) = rev (dropWhile P (rev xs))"
proof (cases "dropWhile P (rev xs) = []")
  case True
  show ?thesis unfolding True by simp
next
  case False
  then have ne: "xs \<noteq> []" by auto
  with assms have h: "\<not> P (hd xs)" by simp
  have "last (dropWhile P (rev xs)) = last (rev xs)"
    using False by (metis takeWhile_dropWhile_id last_appendR)
  also have "\<dots> = hd xs" using ne by (simp add: last_rev)
  finally have "\<not> P (hd (rev (dropWhile P (rev xs))))"
    using h False by (simp add: hd_rev)
  with False show ?thesis by (cases "rev (dropWhile P (rev xs))") auto
qed

lemma trim_idem: "trim (trim s) = trim s"
proof -
  let ?u = "dropWhile isWhiteSpace s"
  have "?u = [] \<or> \<not> isWhiteSpace (hd ?u)"
    by (metis hd_dropWhile)
  from dropWhile_rev_stable [of "?u" isWhiteSpace, OF this] show ?thesis
    by (simp add: trim_def)
qed

lemma splitLines_nonempty: "splitLines s \<noteq> []"
  by (induction s) (auto split: list.splits)

lemma splitLines_append_nl: "splitLines (a @ 0x0A # b) = splitLines a @ splitLines b"
proof (induction a)
  case Nil
  show ?case by simp
next
  case (Cons c cs)
  show ?case
  proof (cases "c = 0x0A")
    case True
    with Cons show ?thesis by simp
  next
    case False
    with Cons splitLines_nonempty [of cs] show ?thesis by (cases "splitLines cs") simp_all
  qed
qed

lemma splitLines_single: "0x0A \<notin> set s \<Longrightarrow> splitLines s = [s]"
  by (induction s) auto

lemma parseLines_append:
  "parseLines config (xs @ ys) st =
     (case parseLines config xs st of Inl e \<Rightarrow> Inl e | Inr st' \<Rightarrow> parseLines config ys st')"
  by (induction xs arbitrary: st) (auto split: sum.splits)

lemma trim_closer:
  assumes "list_all isWhiteSpace ws1" "list_all isWhiteSpace ws2"
  shows "trim (ws1 @ [0x2A, 0x2F] @ ws2) = [0x2A, 0x2F]"
proof -
  have a: "\<not> isWhiteSpace 0x2A" "\<not> isWhiteSpace 0x2F" by (simp_all add: isWhiteSpace_def)
  from assms(1) a have "dropWhile isWhiteSpace (ws1 @ [0x2A, 0x2F] @ ws2) = [0x2A, 0x2F] @ ws2"
    by (simp add: dropWhile_append3 list_all_iff)
  moreover from assms(2) a have "dropWhile isWhiteSpace (rev ws2 @ [0x2F, 0x2A]) = [0x2F, 0x2A]"
    by (simp add: dropWhile_append3 list_all_iff)
  ultimately show ?thesis by (simp add: trim_def)
qed

lemma trimmedLine_closer:
  assumes "list_all isWhiteSpace ws1" "list_all isWhiteSpace ws2"
  shows "trimmedLine (ws1 @ js ''*/'' @ ws2) = []"
  using trim_closer [OF assms]
  by (simp add: trimmedLine_def js_closer stripCommentStart_def isCommentLead_def stripCommentEnd_def)

section \<open>The closing line of a block comment\<close>

lemma parseLine_closer:
  assumes "multiLineSupport config" and "trimmedLine ln = []"
  shows "parseLine config ln (annots, Some cur) =
           Inr (annots, Some (cur\<lparr> content_opt := Some (toStr (content_opt cur) @ js ''\<newline>''),
                                    isMultiLine_opt := Some True \<rparr>))"
  using assms by (simp add: parseLine_def findAnnotationType_Nil)

text \<open>
  Claim C10. With \<open>multiLineSupport\<close> on, let the last physical line of the comment be a
  block-comment closer on its own (white space, \<^verbatim>\<open>*/\<close>, white space) and let an
  annotation be open when that line is reached. Cleaning reduces the line to the empty
  string, the line is appended to the open annotation as a continuation line, and that
  annotation is emitted last with \<open>isMultiLine\<close> true, whatever came between its tag line
  and the closer.
\<close>

theorem closing_line_is_continuation:
  assumes multi: "multiLineSupport config"
    and ws: "list_all isWhiteSpace ws1" "list_all isWhiteSpace ws2"
    and one_line: "0x0A \<notin> set ws1 \<union> set ws2"
    and opened: "parseLines config (splitLines body) ([], None) = Inr (annots, Some cur)"
  shows "trimmedLine (ws1 @ js ''*/'' @ ws2) = [] \<and>
         (\<exists>t c. type_opt cur = Some t \<and> content_opt cur = Some c \<and>
            parseLines config (splitLines (body @ js ''\<newline>'' @ ws1 @ js ''*/'' @ ws2)) ([], None) =
              Inr (annots, Some (cur\<lparr> content_opt := Some (c @ js ''\<newline>''),
                                       isMultiLine_opt := Some True \<rparr>)) \<and>
            parse config (body @ js ''\<newline>'' @ ws1 @ js ''*/'' @ ws2) =
              Inr (annots @ [\<lparr> type = t, content = trim (c @ js ''\<newline>''), isMultiLine = True \<rparr>]))"
proof -
  let ?cl = "ws1 @ js ''*/'' @ ws2"
  have cl: "trimmedLine ?cl = []" by (rule trimmedLine_closer [OF ws])
  have "complete (snd ([], None))" by (simp add: complete_def)
  from parseLines_complete [OF this, of config "splitLines body"] opened
  have "complete (Some cur)" by simp
  then obtain t c where t: "type_opt cur = Some t" "t \<noteq> []" and c: "content_opt cur = Some c"
    by (auto simp: complete_def truthy_def split: option.splits)
  from one_line have "0x0A \<notin> set ?cl" by (simp add: js_closer)
  then have "splitLines (body @ js ''\<newline>'' @ ?cl) = splitLines body @ [?cl]"
    using splitLines_append_nl [of body ?cl] by (simp add: js_newline splitLines_single)
  then have lines: "parseLines config (splitLines (body @ js ''\<newline>'' @ ?cl)) ([], None) =
      Inr (annots, Some (cur\<lparr> content_opt := Some (c @ js ''\<newline>''), isMultiLine_opt := Some True \<rparr>))"
    using opened parseLine_closer [OF multi cl, of annots cur] c
    by (simp add: parseLines_append toStr_def)
  have "parse config (body @ js ''\<newline>'' @ ?cl) =
      Inr (annots @ [\<lparr> type = t, content = trim (c @ js ''\<newline>''), isMultiLine = True \<rparr>])"
    unfolding parse_def lines using t
    by (simp add: pushCurrent_def truthy_def finalizeAnnotation_def js_newline)
  with cl t c lines show ?thesis by blast
qed

theorem closing_line_is_continuation_witness:
  "multiLineSupport testConfig \<and> list_all isWhiteSpace (js '' '') \<and> list_all isWhiteSpace [] \<and>
   0x0A \<notin> set (js '' '') \<union> set [] \<and>
   parseLines testConfig (splitLines (js ''/**\<newline> * @returns result'')) ([], None) =
     Inr ([], Some \<lparr> type_opt = Some (js ''@returns''), content_opt = Some (js ''result''),
                       isMultiLine_opt = Some False \<rparr>) \<and>
   trimmedLine (js '' */'') = [] \<and>
   parse testConfig (js ''/**\<newline> * @returns result\<newline> */'') =
     Inr [\<lparr> type = js ''@returns'', content = js ''result'', isMultiLine = True \<rparr>]"
proof -
  have h1: "multiLineSupport testConfig" by (simp add: testConfig_def)
  have h2: "list_all isWhiteSpace (js '' '')" by (simp add: js_def isWhiteSpace_def)
  have h3: "list_all isWhiteSpace []" by simp
  have h4: "0x0A \<notin> set (js '' '') \<union> set []" by (simp add: js_def)
  have h5: "parseLines testConfig (splitLines (js ''/**\<newline> * @returns result'')) ([], None) =
     Inr ([], Some \<lparr> type_opt = Some (js ''@returns''), content_opt = Some (js ''result''),
                       isMultiLine_opt = Some False \<rparr>)"
    by code_simp
  have t: "trim (js ''result'' @ js ''\<newline>'') = js ''result''" by code_simp
  have e: "js ''/**\<newline> * @returns result'' @ js ''\<newline>'' @ js '' '' @ js ''*/'' @ [] =
           js ''/**\<newline> * @returns result\<newline> */''" by (simp add: js_def)
  from closing_line_is_continuation [OF h1 h2 h3 h4 h5]
  have "trimmedLine (js '' '' @ js ''*/'' @ []) = [] \<and>
        parse testConfig (js ''/**\<newline> * @returns result'' @ js ''\<newline>'' @ js '' '' @ js ''*/'' @ []) =
          Inr [\<lparr> type = js ''@returns'', content = trim (js ''result'' @ js ''\<newline>''), isMultiLine = True \<rparr>]"
    by simp
  then have "trimmedLine (js '' */'') = [] \<and>
        parse testConfig (js ''/**\<newline> * @returns result\<newline> */'') =
          Inr [\<lparr> type = js ''@returns'', content = js ''result'', isMultiLine = True \<rparr>]"
    unfolding t e by (simp add: js_def)
  with h1 h2 h3 h4 h5 show ?thesis by blast
qed

section \<open>Steps of the loop\<close>

lemma step_tag:
  assumes "findAnnotationType config (trimmedLine ln) = Some t" and "pushCurrent annots cur = Inr annots'"
  shows "parseLine config ln (annots, cur) =
           Inr (annots', Some \<lparr> type_opt = Some t,
                                 content_opt = Some (trim (substringFrom (trimmedLine ln) (length t))),
                                 isMultiLine_opt = Some False \<rparr>)"
  using assms by (simp add: parseLine_def)

lemma step_continuation:
  assumes "findAnnotationType config (trimmedLine ln) = None" and "multiLineSupport config"
  shows "parseLine config ln (annots, Some cur) =
           Inr (annots, Some (cur\<lparr> content_opt := Some (toStr (content_opt cur) @ js ''\<newline>'' @ trimmedLine ln),
                                    isMultiLine_opt := Some True \<rparr>))"
  using assms by (simp add: parseLine_def)

section \<open>Parsing without multi-line support\<close>

lemma pushCurrent_tagLine:
  assumes "openTagLine config lns cur" and "\<forall>a \<in> set annots. tagLineOf config lns a"
    and "pushCurrent annots cur = Inr annots'"
  shows "\<forall>a \<in> set annots'. tagLineOf config lns a"
proof (cases cur)
  case None
  with assms show ?thesis by (simp add: pushCurrent_def)
next
  case (Some c)
  with assms(1) obtain ln t where ln: "ln \<in> set lns"
    and t: "findAnnotationType config (trimmedLine ln) = Some t"
    and c: "c = \<lparr> type_opt = Some t,
                   content_opt = Some (trim (substringFrom (trimmedLine ln) (length t))),
                   isMultiLine_opt = Some False \<rparr>"
    by (auto simp: openTagLine_def)
  let ?a = "\<lparr> type = t, content = trim (substringFrom (trimmedLine ln) (length t)), isMultiLine = False \<rparr>"
  from ln t have "content ?a \<noteq> [] \<Longrightarrow> tagLineOf config lns ?a"
    by (auto simp: tagLineOf_def)
  moreover from assms(3) Some c
  have "annots' = annots \<or> (annots' = annots @ [?a] \<and> content ?a \<noteq> [])"
    by (auto simp: pushCurrent_def finalizeAnnotation_def trim_idem truthy_def split: if_splits)
  ultimately show ?thesis using assms(2) by auto
qed

lemma parseLine_tagLine:
  assumes "\<not> multiLineSupport config" and "ln \<in> set lns"
    and "openTagLine config lns cur" and "\<forall>a \<in> set annots. tagLineOf config lns a"
    and "parseLine config ln (annots, cur) = Inr (annots', cur')"
  shows "openTagLine config lns cur' \<and> (\<forall>a \<in> set annots'. tagLineOf config lns a)"
proof (cases "findAnnotationType config (trimmedLine ln)")
  case None
  with assms(1,5) have "annots' = annots" "cur' = cur"
    by (auto simp: parseLine_def split: option.splits)
  with assms(3,4) show ?thesis by simp
next
  case (Some t)
  with assms(5) obtain p: "pushCurrent annots cur = Inr annots'"
    and c: "cur' = Some \<lparr> type_opt = Some t,
                   content_opt = Some (trim (substringFrom (trimmedLine ln) (length t))),
                   isMultiLine_opt = Some False \<rparr>"
    by (auto simp: parseLine_def split: sum.splits)
  from c Some assms(2) have "openTagLine config lns cur'" by (auto simp: openTagLine_def)
  with pushCurrent_tagLine [OF assms(3,4) p] show ?thesis by simp
qed

lemma parseLines_tagLine:
  assumes "\<not> multiLineSupport config"
  shows "set ls \<subseteq> set lns \<Longrightarrow> openTagLine config lns cur \<Longrightarrow>
         \<forall>a \<in> set annots. tagLineOf config lns a \<Longrightarrow>
         parseLines config ls (annots, cur) = Inr (annots', cur') \<Longrightarrow>
         openTagLine config lns cur' \<and> (\<forall>a \<in> set annots'. tagLineOf config lns a)"
proof (induction ls arbitrary: annots cur)
  case Nil
  then show ?case by simp
next
  case (Cons l ls)
  from Cons.prems(4) obtain annots1 cur1 where
    s: "parseLine config l (annots, cur) = Inr (annots1, cur1)"
    and r: "parseLines config ls (annots1, cur1) = Inr (annots', cur')"
    by (auto split: sum.splits)
  from Cons.prems(1) have l: "l \<in> set lns" and ls: "set ls \<subseteq> set lns" by auto
  from parseLine_tagLine [OF assms l Cons.prems(2,3) s]
  have "openTagLine config lns cur1" "\<forall>a \<in> set annots1. tagLineOf config lns a" by auto
  from Cons.IH [OF ls this r] show ?case .
qed

lemma parse_tagLine:
  assumes "\<not> multiLineSupport config"
    and "parse config comments = Inr annots"
    and "a \<in> set annots"
  shows "tagLineOf config (splitLines comments) a"
proof -
  let ?lns = "splitLines comments"
  from assms(2) obtain annots1 cur1 where
    l: "parseLines config ?lns ([], None) = Inr (annots1, cur1)"
    and p: "pushCurrent annots1 cur1 = Inr annots"
    by (auto simp: parse_def split: sum.splits)
  have "openTagLine config ?lns None" by (simp add: openTagLine_def)
  from parseLines_tagLine [OF assms(1) subset_refl this _ l]
  have "openTagLine config ?lns cur1" "\<forall>a \<in> set annots1. tagLineOf config ?lns a" by auto
  from pushCurrent_tagLine [OF this p] assms(3) show ?thesis by blast
qed

text \<open>
  Without \<open>multiLineSupport\<close> the content is trimmed before the emptiness test of
  \<open>pushCurrent\<close>, so no annotation with an empty content is emitted on that path.
\<close>

lemma nonempty_content_without_multiLineSupport:
  assumes "\<not> multiLineSupport config"
    and "parse config comments = Inr annots"
    and "a \<in> set annots"
  shows "trim (content a) \<noteq> []"
proof -
  from parse_tagLine [OF assms] obtain ln where
    "content a \<noteq> []" "content a = trim (substringFrom (trimmedLine ln) (length (type a)))"
    by (auto simp: tagLineOf_def)
  then show ?thesis by (metis trim_idem)
qed

text \<open>
  Claim C9. With \<open>multiLineSupport\<close> off, every annotation that \<open>parse\<close> returns has
  \<open>isMultiLine\<close> false, and its content is the trimmed remainder, after the matched tag,
  of the cleaned text of one of the comment's lines on which that tag was matched: lines
  without a tag never reach the content.
\<close>

theorem single_line_without_multiLineSupport:
  assumes "\<not> multiLineSupport config"
    and "parse config comments = Inr annots"
    and "a \<in> set annots"
  shows "\<not> isMultiLine a \<and>
         (\<exists>ln \<in> set (splitLines comments).
            findAnnotationType config (trimmedLine ln) = Some (type a) \<and>
            content a = trim (substringFrom (trimmedLine ln) (length (type a))))"
  using parse_tagLine [OF assms] by (simp add: tagLineOf_def)

theorem single_line_without_multiLineSupport_witness:
  "\<not> multiLineSupport singleLineConfig \<and>
   parse singleLineConfig (js ''/**\<newline> * @param a first\<newline> *   more\<newline> */'') =
     Inr [\<lparr> type = js ''@param'', content = js ''a first'', isMultiLine = False \<rparr>] \<and>
   \<lparr> type = js ''@param'', content = js ''a first'', isMultiLine = False \<rparr>
     \<in> set [\<lparr> type = js ''@param'', content = js ''a first'', isMultiLine = False \<rparr>] \<and>
   (\<exists>ln \<in> set (splitLines (js ''/**\<newline> * @param a first\<newline> *   more\<newline> */'')).
      findAnnotationType singleLineConfig (trimmedLine ln) = Some (js ''@param'') \<and>
      js ''a first'' = trim (substringFrom (trimmedLine ln) (length (js ''@param''))))"
proof -
  have h1: "\<not> multiLineSupport singleLineConfig" by (simp add: singleLineConfig_def)
  have h2: "parse singleLineConfig (js ''/**\<newline> * @param a first\<newline> *   more\<newline> */'') =
     Inr [\<lparr> type = js ''@param'', content = js ''a first'', isMultiLine = False \<rparr>]"
    by code_simp
  have h3: "\<lparr> type = js ''@param'', content = js ''a first'', isMultiLine = False \<rparr>
     \<in> set [\<lparr> type = js ''@param'', content = js ''a first'', isMultiLine = False \<rparr>]" by simp
  from single_line_without_multiLineSupport [OF h1 h2 h3] h1 h2 h3 show ?thesis by simp
qed

section \<open>Matching a tag\<close>

lemma find_the_only:
  assumes "x \<in> set xs" and "P x" and "\<forall>y \<in> set xs. P y \<longrightarrow> y = x"
  shows "List.find P xs = Some x"
proof -
  from assms(1,2) obtain y where y: "List.find P xs = Some y"
    by (cases "List.find P xs") (auto simp: find_None_iff)
  then have "y \<in> set xs" "P y" by (auto simp: find_Some_iff)
  with assms(3) have "y = x" by blast
  with y show ?thesis by simp
qed

lemma findAnnotationType_None:
  "\<forall>t \<in> set (supportedAnnotations config). \<not> startsWith ln t \<Longrightarrow> findAnnotationType config ln = None"
proof -
  assume "\<forall>t \<in> set (supportedAnnotations config). \<not> startsWith ln t"
  then have "List.find (\<lambda>annotation. startsWith ln annotation) (supportedAnnotations config) = None"
    by (simp add: find_None_iff)
  then show ?thesis by (simp add: findAnnotationType_def)
qed

text \<open>
  Claim C4, as stated, fails: with \<^verbatim>\<open>@param\<close> configured before \<^verbatim>\<open>@paramType\<close>,
  both are prefixes of the line \<^verbatim>\<open>@paramType x\<close>, the longest is \<^verbatim>\<open>@paramType\<close>, and
  \<open>findAnnotationType\<close> returns \<^verbatim>\<open>@param\<close>.
\<close>

theorem longest_match_counterexample:
  "startsWith (js ''@paramType x'') (js ''@param'') \<and>
   startsWith (js ''@paramType x'') (js ''@paramType'') \<and>
   longestMatchingTag (supportedAnnotations overlappingConfig) (js ''@paramType x'') = Some (js ''@paramType'') \<and>
   findAnnotationType overlappingConfig (js ''@paramType x'') = Some (js ''@param'')"
  by code_simp

text \<open>
  Claim C4, amended. The tag matched for a line is the first one, in the configured
  order, that is a prefix of the line, whatever the lengths of the later ones; when that
  first one is the empty string, no tag is matched.
\<close>

theorem first_match_wins:
  assumes "supportedAnnotations config = before @ t # after"
    and "\<forall>a \<in> set before. \<not> startsWith ln a"
    and "startsWith ln t"
  shows "findAnnotationType config ln = (if t = [] then None else Some t)"
proof -
  from assms(2,3) have "List.find (\<lambda>annotation. startsWith ln annotation) (before @ t # after) = Some t"
    by (induction before) auto
  with assms(1) show ?thesis by (simp add: findAnnotationType_def)
qed

theorem first_match_wins_witness:
  "supportedAnnotations overlappingConfig = [] @ js ''@param'' # [js ''@paramType''] \<and>
   startsWith (js ''@paramType x'') (js ''@param'') \<and>
   findAnnotationType overlappingConfig (js ''@paramType x'') = Some (js ''@param'')"
proof -
  have h1: "supportedAnnotations overlappingConfig = [] @ js ''@param'' # [js ''@paramType'']"
    by (simp add: overlappingConfig_def)
  have h2: "\<forall>a \<in> set []. \<not> startsWith (js ''@paramType x'') a" by simp
  have h3: "startsWith (js ''@paramType x'') (js ''@param'')" by (simp add: startsWith_def js_def)
  have ne: "js ''@param'' \<noteq> []" by (simp add: js_def)
  from first_match_wins [OF h1 h2 h3] ne h1 h3 show ?thesis by simp
qed

section \<open>Scenarios\<close>

text \<open>
  Claim C5. The comment \<^verbatim>\<open>/** @param name desc\<close>, \<^verbatim>\<open>@returns result */\<close> (two
  lines), with the supported annotations \<^verbatim>\<open>@param\<close> and \<^verbatim>\<open>@returns\<close> and
  \<open>multiLineSupport\<close> on, gives exactly two annotations, in this order, neither of them
  multi-line.
\<close>

theorem param_returns_scenario:
  "parse paramReturnsConfig (js ''/** @param name desc\<newline>@returns result */'') =
     Inr [\<lparr> type = js ''@param'', content = js ''name desc'', isMultiLine = False \<rparr>,
          \<lparr> type = js ''@returns'', content = js ''result'', isMultiLine = False \<rparr>]"
  by code_simp

text \<open>
  Claim C6, as stated, fails. Both configurations below support \<^verbatim>\<open>@description\<close> and
  have \<open>multiLineSupport\<close> on. With \<^verbatim>\<open>@desc\<close> configured before \<^verbatim>\<open>@description\<close>
  the first line is matched as \<^verbatim>\<open>@desc\<close>, and the only annotation has that type. With
  \<^verbatim>\<open>line\<close> configured as well, the two other lines are tag lines of their own: the
  \<^verbatim>\<open>@description\<close> annotation has no content and is dropped, and nothing is multi-line.
\<close>

theorem description_continuation_counterexample:
  "multiLineSupport descConfig \<and> js ''@description'' \<in> set (supportedAnnotations descConfig) \<and>
   parse descConfig (js ''@description\<newline>line1\<newline>line2'') =
     Inr [\<lparr> type = js ''@desc'', content = js ''ription\<newline>line1\<newline>line2'',
            isMultiLine = True \<rparr>] \<and>
   multiLineSupport lineConfig \<and> js ''@description'' \<in> set (supportedAnnotations lineConfig) \<and>
   parse lineConfig (js ''@description\<newline>line1\<newline>line2'') =
     Inr [\<lparr> type = js ''line'', content = js ''1'', isMultiLine = False \<rparr>,
          \<lparr> type = js ''line'', content = js ''2'', isMultiLine = False \<rparr>]"
  by code_simp

text \<open>
  Claim C6, amended. The comment \<^verbatim>\<open>@description\<close>, \<^verbatim>\<open>line1\<close>, \<^verbatim>\<open>line2\<close> (three
  lines), parsed with \<open>multiLineSupport\<close> on, \<^verbatim>\<open>@description\<close> among the supported
  annotations, no other supported annotation a prefix of \<^verbatim>\<open>@description\<close>, and no
  supported annotation a prefix of \<^verbatim>\<open>line1\<close> or of \<^verbatim>\<open>line2\<close>, gives exactly one
  annotation: its type is \<^verbatim>\<open>@description\<close>, its content is \<^verbatim>\<open>line1\<close>, a line feed,
  \<^verbatim>\<open>line2\<close>, and it is multi-line.
\<close>

theorem description_continuation:
  assumes multi: "multiLineSupport config"
    and supported: "js ''@description'' \<in> set (supportedAnnotations config)"
    and only_tag: "\<forall>t \<in> set (supportedAnnotations config).
                     startsWith (js ''@description'') t \<longrightarrow> t = js ''@description''"
    and no_tag: "\<forall>t \<in> set (supportedAnnotations config).
                     \<not> startsWith (js ''line1'') t \<and> \<not> startsWith (js ''line2'') t"
  shows "parse config (js ''@description\<newline>line1\<newline>line2'') =
           Inr [\<lparr> type = js ''@description'', content = js ''line1\<newline>line2'', isMultiLine = True \<rparr>]"
proof -
  let ?a0 = "\<lparr> type_opt = Some (js ''@description''), content_opt = Some [],
               isMultiLine_opt = Some False \<rparr>"
  let ?a1 = "\<lparr> type_opt = Some (js ''@description''),
               content_opt = Some (js ''\<newline>line1''), isMultiLine_opt = Some True \<rparr>"
  let ?a2 = "\<lparr> type_opt = Some (js ''@description''),
               content_opt = Some (js ''\<newline>line1\<newline>line2''), isMultiLine_opt = Some True \<rparr>"
  have lines: "splitLines (js ''@description\<newline>line1\<newline>line2'') =
                 [js ''@description'', js ''line1'', js ''line2'']" by code_simp
  have t0: "trimmedLine (js ''@description'') = js ''@description''" by code_simp
  have t1: "trimmedLine (js ''line1'') = js ''line1''" by code_simp
  have t2: "trimmedLine (js ''line2'') = js ''line2''" by code_simp
  have "startsWith (js ''@description'') (js ''@description'')" by (simp add: startsWith_def)
  from find_the_only [of _ _ "\<lambda>annotation. startsWith (js ''@description'') annotation",
      OF supported this only_tag]
  have "findAnnotationType config (js ''@description'') = Some (js ''@description'')"
    by (simp add: findAnnotationType_def js_def)
  then have f0: "findAnnotationType config (trimmedLine (js ''@description'')) = Some (js ''@description'')"
    by (simp only: t0)
  from no_tag have f1: "findAnnotationType config (trimmedLine (js ''line1'')) = None"
    and f2: "findAnnotationType config (trimmedLine (js ''line2'')) = None"
    unfolding t1 t2 by (simp_all add: findAnnotationType_None)
  have c0: "trim (substringFrom (trimmedLine (js ''@description'')) (length (js ''@description''))) = []"
    by code_simp
  have c1: "toStr (Some []) @ js ''\<newline>'' @ trimmedLine (js ''line1'') = js ''\<newline>line1''"
    by code_simp
  have c2: "toStr (Some (js ''\<newline>line1'')) @ js ''\<newline>'' @ trimmedLine (js ''line2'') =
              js ''\<newline>line1\<newline>line2''"
    by code_simp
  have c: "trim (js ''\<newline>line1\<newline>line2'') = js ''line1\<newline>line2''" by code_simp
  have ne: "truthy (Some (js ''@description''))" "truthy (Some (js ''\<newline>line1\<newline>line2''))"
    by code_simp+
  have p0: "pushCurrent [] None = Inr []" by (simp add: pushCurrent_def)
  have s0: "parseLine config (js ''@description'') ([], None) = Inr ([], Some ?a0)"
    using step_tag [OF f0 p0] by (simp only: c0)
  have s1: "parseLine config (js ''line1'') ([], Some ?a0) = Inr ([], Some ?a1)"
    using step_continuation [OF f1 multi, of "[]" ?a0] by (simp add: c1)
  have s2: "parseLine config (js ''line2'') ([], Some ?a1) = Inr ([], Some ?a2)"
    using step_continuation [OF f2 multi, of "[]" ?a1] by (simp add: c2)
  have "parseLines config [js ''@description'', js ''line1'', js ''line2''] ([], None) =
          Inr ([], Some ?a2)"
    by (simp add: s0 s1 s2)
  then show ?thesis
    using ne by (simp add: parse_def lines pushCurrent_def finalizeAnnotation_def c)
qed

theorem description_continuation_witness:
  "multiLineSupport testConfig \<and> js ''@description'' \<in> set (supportedAnnotations testConfig) \<and>
   parse testConfig (js ''@description\<newline>line1\<newline>line2'') =
     Inr [\<lparr> type = js ''@description'', content = js ''line1\<newline>line2'', isMultiLine = True \<rparr>]"
proof -
  have h1: "multiLineSupport testConfig" by (simp add: testConfig_def)
  have h2: "js ''@description'' \<in> set (supportedAnnotations testConfig)" by (simp add: testConfig_def)
  have h3: "\<forall>t \<in> set (supportedAnnotations testConfig).
              startsWith (js ''@description'') t \<longrightarrow> t = js ''@description''"
    by code_simp
  have h4: "\<forall>t \<in> set (supportedAnnotations testConfig).
              \<not> startsWith (js ''line1'') t \<and> \<not> startsWith (js ''line2'') t"
    by code_simp
  from description_continuation [OF h1 h2 h3 h4] h1 h2 show ?thesis by simp
qed

text \<open>
  Claim C1. The claim says that no returned annotation has an empty content after
  trimming. \<open>pushCurrent\<close> tests the accumulated content before \<open>finalizeAnnotation\<close>
  trims it: a tag line with no body, followed by the closing line of the block comment,
  accumulates a lone line feed, passes the test and is emitted with the empty content.
\<close>

theorem empty_content_emitted:
  "parse testConfig (js ''/**\<newline> * @throws\<newline> */'') =
     Inr [\<lparr> type = js ''@throws'', content = [], isMultiLine = True \<rparr>]"
  by code_simp

section \<open>The declaration locator\<close>

text \<open>
  The constructor on the empty argument gives the defaults; a property passed as
  \<^verbatim>\<open>undefined\<close> stays \<^verbatim>\<open>undefined\<close>, and \<open>AnnotationParser\<close> then has no tag at all.
\<close>

lemma TypeScriptParser_empty:
  "TypeScriptParser \<lparr> supportedAnnotations_arg = Absent, multiLineSupport_arg = Absent,
                      encoding_arg = Absent \<rparr> = defaultConfig"
  by (simp add: TypeScriptParser_def defaultConfig_def)

lemma TypeScriptParser_undefined_tags:
  "supportedAnnotations
     (AnnotationParser (TypeScriptParser \<lparr> supportedAnnotations_arg = Present None,
                                            multiLineSupport_arg = Absent,
                                            encoding_arg = Absent \<rparr>)) = []"
  by (simp add: TypeScriptParser_def AnnotationParser_def)

lemma parseAnnotations_returns: "\<exists>annots. parseAnnotations config comments = Inr annots"
  using parse_returns [of "AnnotationParser config" comments] by (simp add: parseAnnotations_def)

lemma processFunctionDeclaration_named:
  assumes "nodeName node = Some nm"
  shows "\<exists>annots. processFunctionDeclaration lcr config sourceFile node =
           Inr (Some \<lparr> name = getText nm, annotations = annots,
                         location = \<lparr> line = fst (getLineAndCharacterOfPosition sourceFile (getStart node)) + 1,
                                       column = snd (getLineAndCharacterOfPosition sourceFile (getStart node)) + 1 \<rparr> \<rparr>)"
proof -
  from parseAnnotations_returns obtain annots where
    "parseAnnotations config (getLeadingComments lcr (getFullText sourceFile) (getFullStart node)) = Inr annots"
    by blast
  with assms show ?thesis by (simp add: processFunctionDeclaration_def Let_def)
qed

lemma computeLineStartsFrom_hd: "\<exists>rest. computeLineStartsFrom p lineStart s = lineStart # rest"
  by (induction p lineStart s rule: computeLineStartsFrom.induct) (auto split: list.splits)

lemma takeWhile_last_index:
  assumes "P x"
  shows "(x # xs) ! (length (takeWhile P (x # xs)) - 1) \<in> set (takeWhile P (x # xs))"
proof -
  let ?tw = "takeWhile P (x # xs)"
  from assms have ne: "?tw \<noteq> []" by simp
  then have lt: "length ?tw - 1 < length ?tw" by simp
  then have "?tw ! (length ?tw - 1) \<in> set ?tw" by (rule nth_mem)
  moreover have "?tw ! (length ?tw - 1) = (x # xs) ! (length ?tw - 1)"
    by (rule takeWhile_nth [OF lt])
  ultimately show ?thesis by (simp only:)
qed

lemma lineStart_le_position:
  "computeLineStarts text ! computeLineOfPosition (computeLineStarts text) position \<le> position"
proof -
  obtain rest where r: "computeLineStarts text = 0 # rest"
    using computeLineStartsFrom_hd [of 0 0 "text"] by (auto simp: computeLineStarts_def)
  have "(0 # rest) ! (length (takeWhile (\<lambda>s. s \<le> position) (0 # rest)) - 1)
          \<in> set (takeWhile (\<lambda>s. s \<le> position) (0 # rest))"
    by (rule takeWhile_last_index) simp
  then show ?thesis unfolding r computeLineOfPosition_def by (blast dest: set_takeWhileD)
qed

lemma functionData_named:
  assumes "isNamedFunctionDeclaration node"
  shows "\<exists>fd. processFunctionDeclaration lcr config sourceFile node = Inr (Some fd) \<and>
              functionDataOf lcr config sourceFile node = [fd]"
proof -
  from assms obtain nm where "nodeName node = Some nm"
    by (auto simp: isNamedFunctionDeclaration_def)
  from processFunctionDeclaration_named [OF this, of lcr config sourceFile]
  show ?thesis by (auto simp: functionDataOf_def)
qed

lemma visit_functionData:
  "visit lcr config sourceFile node acc =
     Inr (acc @ concat (map (functionDataOf lcr config sourceFile)
                          (filter isNamedFunctionDeclaration (preorder node))))"
  and forEachChild_functionData:
  "forEachChild lcr config sourceFile cs acc =
     Inr (acc @ concat (map (functionDataOf lcr config sourceFile)
                          (filter isNamedFunctionDeclaration (concat (map preorder cs)))))"
proof (induction lcr config sourceFile node acc and lcr config sourceFile cs acc
       rule: visit_forEachChild.induct)
  case (1 lcr config sourceFile k fs s nm cs acc)
  let ?n = "Node k fs s nm cs"
  show ?case
  proof (cases "isNamedFunctionDeclaration ?n")
    case True
    from functionData_named [OF True, of lcr config sourceFile] obtain fd where
      p: "processFunctionDeclaration lcr config sourceFile ?n = Inr (Some fd)"
      and d: "functionDataOf lcr config sourceFile ?n = [fd]" by blast
    from True p have "(if isNamedFunctionDeclaration ?n
            then (case processFunctionDeclaration lcr config sourceFile ?n of
                    Inl e \<Rightarrow> Inl e
                  | Inr None \<Rightarrow> Inr acc
                  | Inr (Some functionData) \<Rightarrow> Inr (acc @ [functionData]))
            else Inr acc) = Inr (acc @ [fd])" by simp
    from "1.IH" [OF this] True p d show ?thesis by simp
  next
    case False
    then have "(if isNamedFunctionDeclaration ?n
            then (case processFunctionDeclaration lcr config sourceFile ?n of
                    Inl e \<Rightarrow> Inl e
                  | Inr None \<Rightarrow> Inr acc
                  | Inr (Some functionData) \<Rightarrow> Inr (acc @ [functionData]))
            else Inr acc) = Inr acc" by simp
    from "1.IH" [OF this] False show ?thesis by simp
  qed
next
  case (2 lcr config sourceFile acc)
  show ?case by simp
next
  case (3 lcr config sourceFile c cs acc)
  from "3.IH"(2) [OF "3.IH"(1)] "3.IH"(1) show ?case by simp
qed

lemma map_functionData:
  "\<forall>n \<in> set ns. isNamedFunctionDeclaration n \<Longrightarrow>
   map (\<lambda>f. Inr (Some f)) (concat (map (functionDataOf lcr config sourceFile) ns)) =
   map (processFunctionDeclaration lcr config sourceFile) ns"
proof (induction ns)
  case Nil
  show ?case by simp
next
  case (Cons n ns)
  then have "isNamedFunctionDeclaration n" by simp
  from functionData_named [OF this, of lcr config sourceFile] Cons show ?case by auto
qed

text \<open>
  Claim C7. \<open>extractFunctions\<close> returns (it does not fail), and the sequence it returns
  is, element by element, what \<open>processFunctionDeclaration\<close> gives for the named
  function declarations of the tree taken in document order (\<open>preorder\<close>).
\<close>

theorem extractFunctions_document_order:
  "\<exists>functions. extractFunctions lcr config sourceFile = Inr functions \<and>
     map (\<lambda>f. Inr (Some f)) functions =
       map (processFunctionDeclaration lcr config sourceFile)
         (filter isNamedFunctionDeclaration (preorder (rootNode sourceFile)))"
  by (simp add: extractFunctions_def visit_functionData map_functionData)

text \<open>
  Claim C2, amended. For every function declaration with a name, the record has the text
  of the name, and its location is the 1-based line and column of \<^verbatim>\<open>node.getStart()\<close>,
  the start of the first token of the declaration (a modifier or the \<^verbatim>\<open>function\<close>
  keyword): the start of the reported line plus the reported column, both taken 0-based,
  is that position.
\<close>

theorem location_is_declaration_start:
  assumes "nodeName node = Some nm"
  shows "\<exists>fm. processFunctionDeclaration lcr config sourceFile node = Inr (Some fm) \<and>
           name fm = getText nm \<and>
           line (location fm) = fst (getLineAndCharacterOfPosition sourceFile (getStart node)) + 1 \<and>
           column (location fm) = snd (getLineAndCharacterOfPosition sourceFile (getStart node)) + 1 \<and>
           computeLineStarts (getFullText sourceFile) ! (line (location fm) - 1)
             + (column (location fm) - 1) = getStart node"
proof -
  from processFunctionDeclaration_named [OF assms, of lcr config sourceFile] obtain annots where
    p: "processFunctionDeclaration lcr config sourceFile node =
           Inr (Some \<lparr> name = getText nm, annotations = annots,
                         location = \<lparr> line = fst (getLineAndCharacterOfPosition sourceFile (getStart node)) + 1,
                                       column = snd (getLineAndCharacterOfPosition sourceFile (getStart node)) + 1 \<rparr> \<rparr>)"
    by blast
  have "computeLineStarts (getFullText sourceFile) ! fst (getLineAndCharacterOfPosition sourceFile (getStart node))
          + snd (getLineAndCharacterOfPosition sourceFile (getStart node)) = getStart node"
    using lineStart_le_position [of "getFullText sourceFile" "getStart node"]
    by (simp add: getLineAndCharacterOfPosition_def Let_def)
  with p show ?thesis by simp
qed

text \<open>
  Claim C2, as stated, fails: for the declaration of \<open>g\<close> in the example file the record
  has line 2, column 3 (the \<^verbatim>\<open>function\<close> keyword), and the name token starts at line 2,
  column 12.
\<close>

theorem name_token_location_counterexample:
  "isNamedFunctionDeclaration declG \<and>
   processFunctionDeclaration noComments defaultConfig exampleFile declG =
     Inr (Some \<lparr> name = js ''g'', annotations = [], location = \<lparr> line = 2, column = 3 \<rparr> \<rparr>) \<and>
   nameTokenLocation exampleFile declG = Some \<lparr> line = 2, column = 12 \<rparr>"
  by code_simp

theorem location_is_declaration_start_witness:
  "nodeName declG = Some \<lparr> idStart = 27, getText = js ''g'' \<rparr> \<and>
   processFunctionDeclaration noComments defaultConfig exampleFile declG =
     Inr (Some \<lparr> name = js ''g'', annotations = [], location = \<lparr> line = 2, column = 3 \<rparr> \<rparr>) \<and>
   computeLineStarts (getFullText exampleFile) ! (2 - 1) + (3 - 1) = getStart declG"
proof -
  have h: "nodeName declG = Some \<lparr> idStart = 27, getText = js ''g'' \<rparr>" by (simp add: declG_def)
  have e: "processFunctionDeclaration noComments defaultConfig exampleFile declG =
     Inr (Some \<lparr> name = js ''g'', annotations = [], location = \<lparr> line = 2, column = 3 \<rparr> \<rparr>)"
    by code_simp
  from location_is_declaration_start [OF h, of noComments defaultConfig exampleFile] obtain fm where
    a: "processFunctionDeclaration noComments defaultConfig exampleFile declG = Inr (Some fm)"
    and b: "computeLineStarts (getFullText exampleFile) ! (line (location fm) - 1)
             + (column (location fm) - 1) = getStart declG" by blast
  from a e have "fm = \<lparr> name = js ''g'', annotations = [], location = \<lparr> line = 2, column = 3 \<rparr> \<rparr>"
    by simp
  with b have "computeLineStarts (getFullText exampleFile) ! (2 - 1) + (3 - 1) = getStart declG"
    by simp
  with h e show ?thesis by blast
qed

text \<open>
  Claim C8. A named function declaration of the tree before which the scanner finds no
  comment is in the output of \<open>extractFunctions\<close>, with its name, its location and the
  empty sequence of annotations.
\<close>

theorem undocumented_function_listed:
  assumes "node \<in> set (preorder (rootNode sourceFile))"
    and "kind node = FunctionDeclaration"
    and "nodeName node = Some nm"
    and "lcr (getFullText sourceFile) (getFullStart node) = None"
  shows "\<exists>functions. extractFunctions lcr config sourceFile = Inr functions \<and>
           \<lparr> name = getText nm, annotations = [],
             location = \<lparr> line = fst (getLineAndCharacterOfPosition sourceFile (getStart node)) + 1,
                           column = snd (getLineAndCharacterOfPosition sourceFile (getStart node)) + 1 \<rparr> \<rparr>
             \<in> set functions"
proof -
  let ?fm = "\<lparr> name = getText nm, annotations = [],
             location = \<lparr> line = fst (getLineAndCharacterOfPosition sourceFile (getStart node)) + 1,
                           column = snd (getLineAndCharacterOfPosition sourceFile (getStart node)) + 1 \<rparr> \<rparr>"
  from assms(4) have "getLeadingComments lcr (getFullText sourceFile) (getFullStart node) = []"
    by (simp add: getLeadingComments_def)
  with assms(3) have "processFunctionDeclaration lcr config sourceFile node = Inr (Some ?fm)"
    by (simp add: processFunctionDeclaration_def parseAnnotations_def Let_def)
  then have "functionDataOf lcr config sourceFile node = [?fm]" by (simp add: functionDataOf_def)
  moreover from assms(1,2,3) have
    "node \<in> set (filter isNamedFunctionDeclaration (preorder (rootNode sourceFile)))"
    by (simp add: isNamedFunctionDeclaration_def)
  ultimately have "?fm \<in> set (concat (map (functionDataOf lcr config sourceFile)
      (filter isNamedFunctionDeclaration (preorder (rootNode sourceFile)))))"
    by (simp only: set_concat set_map) force
  then show ?thesis by (simp add: extractFunctions_def visit_functionData)
qed

theorem undocumented_function_listed_witness:
  "declG \<in> set (preorder (rootNode exampleFile)) \<and> kind declG = FunctionDeclaration \<and>
   nodeName declG = Some \<lparr> idStart = 27, getText = js ''g'' \<rparr> \<and>
   noComments (getFullText exampleFile) (getFullStart declG) = None \<and>
   extractFunctions noComments defaultConfig exampleFile =
     Inr [\<lparr> name = js ''f'', annotations = [], location = \<lparr> line = 1, column = 1 \<rparr> \<rparr>,
          \<lparr> name = js ''g'', annotations = [], location = \<lparr> line = 2, column = 3 \<rparr> \<rparr>] \<and>
   \<lparr> name = js ''g'', annotations = [], location = \<lparr> line = 2, column = 3 \<rparr> \<rparr>
     \<in> set [\<lparr> name = js ''f'', annotations = [], location = \<lparr> line = 1, column = 1 \<rparr> \<rparr>,
            \<lparr> name = js ''g'', annotations = [], location = \<lparr> line = 2, column = 3 \<rparr> \<rparr>]"
proof -
  have h1: "declG \<in> set (preorder (rootNode exampleFile))"
    by (simp add: exampleFile_def declG_def declF_def)
  have h2: "kind declG = FunctionDeclaration" by (simp add: declG_def)
  have h3: "nodeName declG = Some \<lparr> idStart = 27, getText = js ''g'' \<rparr>" by (simp add: declG_def)
  have h4: "noComments (getFullText exampleFile) (getFullStart declG) = None"
    by (simp add: noComments_def)
  have e: "extractFunctions noComments defaultConfig exampleFile =
     Inr [\<lparr> name = js ''f'', annotations = [], location = \<lparr> line = 1, column = 1 \<rparr> \<rparr>,
          \<lparr> name = js ''g'', annotations = [], location = \<lparr> line = 2, column = 3 \<rparr> \<rparr>]"
    by code_simp
  have lc: "getLineAndCharacterOfPosition exampleFile (getStart declG) = (1, 2)" by code_simp
  from undocumented_function_listed [where node = declG and sourceFile = exampleFile
      and lcr = noComments and config = defaultConfig, OF h1 h2 h3 h4] e
  have "\<lparr> name = js ''g'', annotations = [], location = \<lparr> line = 2, column = 3 \<rparr> \<rparr>
     \<in> set [\<lparr> name = js ''f'', annotations = [], location = \<lparr> line = 1, column = 1 \<rparr> \<rparr>,
            \<lparr> name = js ''g'', annotations = [], location = \<lparr> line = 2, column = 3 \<rparr> \<rparr>]"
    by (simp add: lc)
  with h1 h2 h3 h4 e show ?thesis by blast
qed

section \<open>The tests of the repository\<close>

text \<open>
  The four tests of \<open>AnnotationParser\<close> in the repository, run on the model. Their
  comments contain Japanese text, written here as UTF-16 code units.
\<close>

lemma test_single_line:
  "parse testConfig
        (js ''/** @param name '' @
         [0x30E6, 0x30FC, 0x30B6, 0x30FC, 0x540D] @
         js '' */'') =
     Inr [\<lparr> type = js ''@param'', content = js ''name '' @ [0x30E6, 0x30FC, 0x30B6, 0x30FC, 0x540D],
            isMultiLine = False \<rparr>]"
  by code_simp

lemma test_multi_line:
  "parse testConfig
        (js ''/**\<newline>         * @description\<newline>         * '' @
         [0x3053, 0x308C, 0x306F, 0x8907, 0x6570, 0x884C, 0x306E] @
         js ''\<newline>         * '' @
         [0x8AAC, 0x660E, 0x3067, 0x3059] @
         js ''\<newline>         */'') =
     Inr [\<lparr> type = js ''@description'',
            content = [0x3053, 0x308C, 0x306F, 0x8907, 0x6570, 0x884C, 0x306E] @ js ''\<newline>'' @
                      [0x8AAC, 0x660E, 0x3067, 0x3059],
            isMultiLine = True \<rparr>]"
  by code_simp

lemma test_unsupported_ignored:
  "map_sum id (map type)
     (parse testConfig
        (js ''/**\<newline>         * @param name '' @
         [0x30E6, 0x30FC, 0x30B6, 0x30FC, 0x540D] @
         js ''\<newline>         * @unsupported '' @
         [0x3053, 0x306E, 0x6CE8, 0x91C8, 0x306F, 0x7121, 0x8996, 0x3055, 0x308C, 0x308B] @
         js ''\<newline>         * @returns '' @
         [0x7D50, 0x679C] @
         js ''\<newline>         */'')) =
     Inr [js ''@param'', js ''@returns'']"
  by code_simp

lemma test_several_annotations:
  "map_sum id (map type)
     (parse testConfig
        (js ''/**\<newline>         * @param a '' @
         [0x6700, 0x521D, 0x306E, 0x6570, 0x5024] @
         js ''\<newline>         * @param b 2'' @
         [0x756A, 0x76EE, 0x306E, 0x6570, 0x5024] @
         js ''\<newline>         * @returns '' @
         [0x8A08, 0x7B97, 0x7D50, 0x679C] @
         js ''\<newline>         * @throws '' @
         [0x30A8, 0x30E9, 0x30FC, 0x30E1, 0x30C3, 0x30BB, 0x30FC, 0x30B8] @
         js ''\<newline>         */'')) =
     Inr [js ''@param'', js ''@param'', js ''@returns'', js ''@throws'']"
  by code_simp

end
